theory Spec2Isabelle
  imports Complex_Main "HOL-Library.Sublist"
begin

section \<open>The in-memory rate limiter of the subscribe route\<close>

text \<open>
  \<^verbatim>\<open>interface RateLimitRecord { count: number; lastAttempt: number }\<close>.
  Counts and epoch milliseconds are integers; the table \<^verbatim>\<open>Map<string, RateLimitRecord>\<close>
  is a partial map from keys to records. \<^verbatim>\<open>Date.now()\<close> is read once per call and is an
  explicit argument \<open>now\<close>; the mutated table is returned next to the result.
\<close>

record RateLimitRecord =
  count :: int
  lastAttempt :: int

type_synonym cache = "string \<rightharpoonup> RateLimitRecord"

record RateLimitResult =
  limited :: bool
  remainingRequests :: int
  resetTime :: int

definition checkRateLimit ::
  "cache \<Rightarrow> string \<Rightarrow> int \<Rightarrow> int \<Rightarrow> int \<Rightarrow> cache \<times> RateLimitResult" where
  "checkRateLimit cache key maxRequests windowMs now =
     (case cache key of
        None \<Rightarrow>
          (cache(key \<mapsto> \<lparr>count = 1, lastAttempt = now\<rparr>),
           \<lparr>limited = False, remainingRequests = maxRequests - 1, resetTime = now + windowMs\<rparr>)
      | Some r \<Rightarrow>
          if now - lastAttempt r > windowMs then
            (cache(key \<mapsto> \<lparr>count = 1, lastAttempt = now\<rparr>),
             \<lparr>limited = False, remainingRequests = maxRequests - 1, resetTime = now + windowMs\<rparr>)
          else
            (let r' = r\<lparr>count := count r + 1, lastAttempt := now\<rparr>
             in (cache(key \<mapsto> r'),
                 \<lparr>limited = count r' > maxRequests,
                  remainingRequests = max 0 (maxRequests - count r'),
                  resetTime = lastAttempt r' + windowMs\<rparr>)))"


fun outcomes :: "int \<Rightarrow> int \<Rightarrow> cache \<Rightarrow> (string \<times> int) list \<Rightarrow> RateLimitResult list" where
  "outcomes m w c [] = []"
| "outcomes m w c ((k, t) # cs) =
     snd (checkRateLimit c k m w t) # outcomes m w (fst (checkRateLimit c k m w t)) cs"

text \<open>
  Every record that \<open>checkRateLimit\<close> writes has a count of at least one; \<open>counts_ok\<close>
  says so of a whole table. The module's table starts empty.
\<close>

definition counts_ok :: "cache \<Rightarrow> bool" where
  "counts_ok c = (\<forall>k r. c k = Some r \<longrightarrow> 1 \<le> count r)"

section \<open>Values, strings and regular expressions of the JavaScript runtime\<close>

text \<open>
  A string is a list of 8-bit characters, read as UTF-16 code units below 256 (Latin-1);
  \<open>of_char\<close> gives the code unit. Character classes are lists of inclusive code ranges.
\<close>

type_synonym code = nat

fun in_ranges :: "code \<Rightarrow> (code \<times> code) list \<Rightarrow> bool" where
  "in_ranges n [] = False"
| "in_ranges n ((lo, hi) # rs) = ((lo \<le> n \<and> n \<le> hi) \<or> in_ranges n rs)"

text \<open>\<^verbatim>\<open>\s\<close> and \<^verbatim>\<open>String.prototype.trim\<close>: TAB, LF, VT, FF, CR, SPACE, NBSP.\<close>

definition whitespace :: "(code \<times> code) list" where
  "whitespace = [(9, 13), (32, 32), (160, 160)]"

definition letters_lower :: "(code \<times> code) list" where
  "letters_lower = [(97, 122)]"

definition letters_upper :: "(code \<times> code) list" where
  "letters_upper = [(65, 90)]"

definition digits :: "(code \<times> code) list" where
  "digits = [(48, 57)]"

definition lower_code :: "code \<Rightarrow> code" where
  "lower_code n =
     (if (65 \<le> n \<and> n \<le> 90) \<or> (192 \<le> n \<and> n \<le> 222 \<and> n \<noteq> 215) then n + 32 else n)"

definition upper_code :: "code \<Rightarrow> code" where
  "upper_code n =
     (if (97 \<le> n \<and> n \<le> 122) \<or> (224 \<le> n \<and> n \<le> 254 \<and> n \<noteq> 247) then n - 32 else n)"

definition toLowerCase :: "string \<Rightarrow> string" where
  "toLowerCase s = map (\<lambda>c. char_of (lower_code (of_char c))) s"

definition is_space :: "char \<Rightarrow> bool" where
  "is_space c = in_ranges (of_char c) whitespace"

definition trim :: "string \<Rightarrow> string" where
  "trim s = rev (dropWhile is_space (rev (dropWhile is_space s)))"

text \<open>
  A regular expression without anchors, groups being plain sequencing. A character set
  is a class \<^verbatim>\<open>[...]\<close> (or a single character), possibly negated \<^verbatim>\<open>[^...]\<close>, possibly
  under the \<^verbatim>\<open>i\<close> flag, where a character is found in the set when it, its lower-case
  or its upper-case form is in it.
\<close>

datatype cset = CSet (negated: bool) (icase: bool) (ranges: "(code \<times> code) list")

definition cset_has :: "cset \<Rightarrow> code \<Rightarrow> bool" where
  "cset_has cs n =
     ((if icase cs
       then in_ranges n (ranges cs) \<or> in_ranges (lower_code n) (ranges cs)
            \<or> in_ranges (upper_code n) (ranges cs)
       else in_ranges n (ranges cs)) \<noteq> negated cs)"

datatype rx = Nothing | Eps | Sym cset | Alt rx rx | Cat rx rx | Star rx

definition lit :: "char \<Rightarrow> rx" where
  "lit a = Sym (CSet False False [(of_char a, of_char a)])"

definition one_of :: "(code \<times> code) list \<Rightarrow> rx" where
  "one_of rs = Sym (CSet False False rs)"

definition none_of :: "(code \<times> code) list \<Rightarrow> rx" where
  "none_of rs = Sym (CSet True False rs)"

fun literal :: "string \<Rightarrow> rx" where
  "literal [] = Eps"
| "literal (c # cs) = Cat (lit c) (literal cs)"

definition one_or_more :: "rx \<Rightarrow> rx" where
  "one_or_more r = Cat r (Star r)"

definition optional :: "rx \<Rightarrow> rx" where
  "optional r = Alt Eps r"

fun exactly :: "nat \<Rightarrow> rx \<Rightarrow> rx" where
  "exactly 0 r = Eps"
| "exactly (Suc n) r = Cat r (exactly n r)"

definition at_least :: "nat \<Rightarrow> rx \<Rightarrow> rx" where
  "at_least n r = Cat (exactly n r) (Star r)"

fun up_to :: "nat \<Rightarrow> rx \<Rightarrow> rx" where
  "up_to 0 r = Eps"
| "up_to (Suc n) r = Alt Eps (Cat r (up_to n r))"

fun ignore_case :: "rx \<Rightarrow> rx" where
  "ignore_case Nothing = Nothing"
| "ignore_case Eps = Eps"
| "ignore_case (Sym cs) = Sym (CSet (negated cs) True (ranges cs))"
| "ignore_case (Alt r s) = Alt (ignore_case r) (ignore_case s)"
| "ignore_case (Cat r s) = Cat (ignore_case r) (ignore_case s)"
| "ignore_case (Star r) = Star (ignore_case r)"

text \<open>Matching by derivatives; \<open>alt\<close> and \<open>cat\<close> drop the dead alternatives.\<close>

fun nullable :: "rx \<Rightarrow> bool" where
  "nullable Nothing = False"
| "nullable Eps = True"
| "nullable (Sym cs) = False"
| "nullable (Alt r s) = (nullable r \<or> nullable s)"
| "nullable (Cat r s) = (nullable r \<and> nullable s)"
| "nullable (Star r) = True"

definition alt :: "rx \<Rightarrow> rx \<Rightarrow> rx" where
  "alt r s = (if r = Nothing then s else if s = Nothing then r else Alt r s)"

definition cat :: "rx \<Rightarrow> rx \<Rightarrow> rx" where
  "cat r s = (if r = Nothing \<or> s = Nothing then Nothing else if r = Eps then s else Cat r s)"

fun deriv :: "code \<Rightarrow> rx \<Rightarrow> rx" where
  "deriv c Nothing = Nothing"
| "deriv c Eps = Nothing"
| "deriv c (Sym cs) = (if cset_has cs c then Eps else Nothing)"
| "deriv c (Alt r s) = alt (deriv c r) (deriv c s)"
| "deriv c (Cat r s) =
     (if nullable r then alt (cat (deriv c r) s) (deriv c s) else cat (deriv c r) s)"
| "deriv c (Star r) = cat (deriv c r) (Star r)"

fun matches :: "rx \<Rightarrow> code list \<Rightarrow> bool" where
  "matches r [] = nullable r"
| "matches r (c # cs) = matches (deriv c r) cs"

text \<open>
  \<^verbatim>\<open>RegExp.prototype.test\<close> (no \<^verbatim>\<open>g\<close> flag, so no state): \<open>test_full\<close> for a pattern
  \<^verbatim>\<open>^r$\<close>, \<open>test_search\<close> for a pattern \<^verbatim>\<open>r\<close> without anchors, \<open>test_suffix\<close> for \<^verbatim>\<open>r$\<close>.
\<close>

definition anything :: rx where
  "anything = Star (Sym (CSet True False []))"

definition test_full :: "rx \<Rightarrow> string \<Rightarrow> bool" where
  "test_full r s = matches r (map of_char s)"

definition test_search :: "rx \<Rightarrow> string \<Rightarrow> bool" where
  "test_search r s = matches (Cat anything (Cat r anything)) (map of_char s)"

definition test_suffix :: "rx \<Rightarrow> string \<Rightarrow> bool" where
  "test_suffix r s = matches (Cat anything r) (map of_char s)"

text \<open>
  Values as \<^verbatim>\<open>JSON.parse\<close> builds them; a missing property (\<^verbatim>\<open>undefined\<close>) is \<open>None\<close> of
  an option. An object is the list of its properties.
\<close>

datatype num = NaN | NegInfinity | Finite real | PosInfinity

datatype json =
    JNull
  | JBool bool
  | JNum num
  | JStr string
  | JArr "json list"
  | JObj "(string \<times> json) list"

fun truthy :: "json \<Rightarrow> bool" where
  "truthy JNull = False"
| "truthy (JBool b) = b"
| "truthy (JNum NaN) = False"
| "truthy (JNum (Finite x)) = (x \<noteq> 0)"
| "truthy (JNum NegInfinity) = True"
| "truthy (JNum PosInfinity) = True"
| "truthy (JStr s) = (s \<noteq> [])"
| "truthy (JArr xs) = True"
| "truthy (JObj kvs) = True"

definition truthy_opt :: "json option \<Rightarrow> bool" where
  "truthy_opt v = (case v of None \<Rightarrow> False | Some x \<Rightarrow> truthy x)"

text \<open>
  Built-ins of the runtime that the handler reaches only on unusual values are parameters:
  the number a string converts to, the string a non-string value converts to, and
  \<^verbatim>\<open>JSON.stringify\<close>.
\<close>

record js_runtime =
  StringToNumber :: "string \<Rightarrow> num"
  ToString :: "json \<Rightarrow> string"
  JSON_stringify :: "json \<Rightarrow> string"

fun ToNumber :: "js_runtime \<Rightarrow> json option \<Rightarrow> num" where
  "ToNumber rt None = NaN"
| "ToNumber rt (Some JNull) = Finite 0"
| "ToNumber rt (Some (JBool b)) = Finite (if b then 1 else 0)"
| "ToNumber rt (Some (JNum n)) = n"
| "ToNumber rt (Some (JStr s)) = StringToNumber rt s"
| "ToNumber rt (Some (JArr xs)) = StringToNumber rt (ToString rt (JArr xs))"
| "ToNumber rt (Some (JObj kvs)) = StringToNumber rt (ToString rt (JObj kvs))"

fun num_less :: "num \<Rightarrow> num \<Rightarrow> bool" where
  "num_less (Finite x) (Finite y) = (x < y)"
| "num_less NegInfinity (Finite y) = True"
| "num_less NegInfinity PosInfinity = True"
| "num_less (Finite x) PosInfinity = True"
| "num_less _ _ = False"

text \<open>\<^verbatim>\<open>v < n\<close> for a number \<open>n\<close>: the left operand is converted to a number.\<close>

definition less_than :: "js_runtime \<Rightarrow> json option \<Rightarrow> real \<Rightarrow> bool" where
  "less_than rt v n = num_less (ToNumber rt v) (Finite n)"

text \<open>\<^verbatim>\<open>v.p\<close> for \<open>p\<close> one of \<^verbatim>\<open>message\<close>, \<^verbatim>\<open>errors\<close> on a value other than \<^verbatim>\<open>null\<close>.\<close>

fun get_prop :: "json \<Rightarrow> string \<Rightarrow> json option" where
  "get_prop (JObj kvs) p = map_of kvs p"
| "get_prop _ p = None"

text \<open>A value inside a template literal.\<close>

fun interpolate :: "js_runtime \<Rightarrow> json \<Rightarrow> string" where
  "interpolate rt (JStr s) = s"
| "interpolate rt v = ToString rt v"

section \<open>The subscribe route\<close>

definition EMAIL_MAX_REQUESTS :: int where
  "EMAIL_MAX_REQUESTS = 1"

definition EMAIL_WINDOW_MS :: int where
  "EMAIL_WINDOW_MS = 86400000"

definition MIN_SUBMISSION_TIME_MS :: real where
  "MIN_SUBMISSION_TIME_MS = 2000"

definition EMAIL_REGEX :: rx where
  "EMAIL_REGEX =
     Cat (one_or_more (none_of (whitespace @ [(64, 64)])))
      (Cat (lit CHR ''@'')
        (Cat (one_or_more (none_of (whitespace @ [(64, 64)])))
          (Cat (lit CHR ''.'') (one_or_more (none_of (whitespace @ [(64, 64)]))))))"

definition SPAM_EMAIL_PATTERNS :: "rx list" where
  "SPAM_EMAIL_PATTERNS =
     [ignore_case (literal ''test@test''),
      ignore_case (literal ''example@''),
      ignore_case (Cat (at_least 8 (one_of digits)) (lit CHR ''@'')),
      ignore_case (Cat (lit CHR ''@'')
         (Alt (literal ''example'')
           (Alt (literal ''test'') (Alt (literal ''temp'') (literal ''fake''))))),
      ignore_case (Cat (at_least 20 (one_of (letters_lower @ digits))) (lit CHR ''@''))]"

definition NAME_REGEX :: rx where
  "NAME_REGEX =
     up_to 50 (one_of (letters_lower @ letters_upper @ whitespace @ [(39, 39), (45, 45)]))"

definition isSpamEmail :: "string \<Rightarrow> bool" where
  "isSpamEmail email = list_ex (\<lambda>pattern. test_search pattern email) SPAM_EMAIL_PATTERNS"

text \<open>
  The parsed request body. \<open>email\<close>, \<open>name\<close> and \<open>interests\<close> are strings when present
  (\<open>None\<close> for a missing or \<^verbatim>\<open>null\<close> field), as the form sends them; \<open>website\<close> and
  \<open>submissionTime\<close> are any value. A body that is not an object has no field. A request
  whose body does not parse, or parses to \<^verbatim>\<open>null\<close>, is \<open>None\<close>: destructuring throws and
  the handler's outer \<^verbatim>\<open>catch\<close> answers it.
\<close>

record SubmissionBody =
  email :: "string option"
  name :: "string option"
  interests :: "string option"
  website :: "json option"
  submissionTime :: "json option"

record SubscriberData =
  sub_email :: string
  sub_name :: "string option"
  sub_interests :: "string option"

datatype reply = Success | Error string

record response =
  status :: nat
  body :: reply

text \<open>
  What \<^verbatim>\<open>fetch\<close> to the provider does: it throws, or it returns a response with a status
  and a body that \<^verbatim>\<open>response.json()\<close> parses (\<open>Some\<close>) or fails to parse (\<open>None\<close>).
\<close>

datatype fetch_outcome = FetchThrows | FetchResponse nat "json option"

definition subscriberData :: "SubmissionBody \<Rightarrow> string \<Rightarrow> SubscriberData" where
  "subscriberData b e =
     \<lparr>sub_email = e,
      sub_name = (case name b of None \<Rightarrow> None
                  | Some n \<Rightarrow> if n \<noteq> [] \<and> trim n \<noteq> [] then Some n else None),
      sub_interests = (case interests b of None \<Rightarrow> None
                  | Some i \<Rightarrow> if i \<noteq> [] then Some i else None)\<rparr>"

text \<open>
  The text after \<^verbatim>\<open>Subscription failed: \<close> for a response that is not ok; \<open>None\<close> when
  reading \<^verbatim>\<open>data.errors\<close> of \<^verbatim>\<open>null\<close> throws.
\<close>

definition errorMessage :: "js_runtime \<Rightarrow> nat \<Rightarrow> json \<Rightarrow> string option" where
  "errorMessage rt st data =
     (if truthy data \<and> truthy_opt (get_prop data ''message'')
      then Some (interpolate rt (the (get_prop data ''message'')))
      else if st = 401 then Some ''Invalid API key''
      else if st = 429 then Some ''Rate limit exceeded''
      else if st = 422 then
        (if data = JNull then None
         else if truthy_opt (get_prop data ''errors'')
              then Some (JSON_stringify rt (the (get_prop data ''errors'')))
              else Some ''Validation error'')
      else Some ''Unknown error'')"

definition network_error :: response where
  "network_error = \<lparr>status = 500, body = Error ''Network error. Please try again later.''\<rparr>"

text \<open>
  \<^verbatim>\<open>NextResponse.json(body, {status})\<close> builds a \<^verbatim>\<open>Response\<close>, whose constructor throws for
  a status outside 200 to 599 and, the body being non-null, for a null-body status. Of
  the statuses that are not ok, those are the ones below 200, above 599, and 304.
\<close>

definition init_throws :: "nat \<Rightarrow> bool" where
  "init_throws st = (st < 200 \<or> 599 < st \<or> st = 304)"

text \<open>
  Lines 192 to 227 of the handler: the provider's outcome turned into the reply. What
  is thrown inside the inner \<^verbatim>\<open>try\<close> is answered by its \<^verbatim>\<open>catch\<close>.
\<close>

definition upstream_response :: "js_runtime \<Rightarrow> fetch_outcome \<Rightarrow> response" where
  "upstream_response rt outcome =
     (case outcome of
        FetchThrows \<Rightarrow> network_error
      | FetchResponse st parsed \<Rightarrow>
          (let data = (case parsed of
                         Some d \<Rightarrow> d
                       | None \<Rightarrow> JObj [(''message'', JStr ''Failed to parse response'')])
           in if \<not> (200 \<le> st \<and> st \<le> 299) then
                (case errorMessage rt st data of
                   None \<Rightarrow> network_error
                 | Some m \<Rightarrow>
                     if init_throws st then network_error
                     else \<lparr>status = st, body = Error (''Subscription failed: '' @ m)\<rparr>)
              else \<lparr>status = 200, body = Success\<rparr>))"

record post_result =
  reply_of :: response
  table :: cache
  forwarded :: "SubscriberData option"

text \<open>
  The handler. Its inputs beside the request: the runtime, the module's table, the value
  of \<^verbatim>\<open>process.env.MAILERLITE_API_KEY\<close>, the clock reading and what the provider does if
  called. \<open>forwarded\<close> is the payload of the HTTP POST to the provider, \<open>None\<close> when no
  call is made.
\<close>

definition POST ::
  "js_runtime \<Rightarrow> cache \<Rightarrow> string option \<Rightarrow> int \<Rightarrow> fetch_outcome \<Rightarrow> SubmissionBody option
     \<Rightarrow> post_result" where
  "POST rt limits apiKey now provider req =
     (case req of
        None \<Rightarrow>
          \<lparr>reply_of = \<lparr>status = 400, body = Error ''Failed to process request''\<rparr>,
           table = limits, forwarded = None\<rparr>
      | Some b \<Rightarrow>
          if truthy_opt (website b) then
            \<lparr>reply_of = \<lparr>status = 200, body = Success\<rparr>, table = limits, forwarded = None\<rparr>
          else if less_than rt (submissionTime b) MIN_SUBMISSION_TIME_MS then
            \<lparr>reply_of = \<lparr>status = 200, body = Success\<rparr>, table = limits, forwarded = None\<rparr>
          else if email b = None \<or> the (email b) = [] \<or> \<not> test_full EMAIL_REGEX (the (email b)) then
            \<lparr>reply_of = \<lparr>status = 400, body = Error ''Please provide a valid email address''\<rparr>,
             table = limits, forwarded = None\<rparr>
          else if isSpamEmail (the (email b)) then
            \<lparr>reply_of = \<lparr>status = 200, body = Success\<rparr>, table = limits, forwarded = None\<rparr>
          else if name b \<noteq> None \<and> the (name b) \<noteq> [] \<and> \<not> test_full NAME_REGEX (the (name b)) then
            \<lparr>reply_of = \<lparr>status = 400, body = Error
               ''Please provide a valid name (letters, spaces, hyphens, and apostrophes only)''\<rparr>,
             table = limits, forwarded = None\<rparr>
          else
            (let (limits', emailLimitResult) =
                   checkRateLimit limits (the (email b)) EMAIL_MAX_REQUESTS EMAIL_WINDOW_MS now
             in if limited emailLimitResult then
                  \<lparr>reply_of = \<lparr>status = 429, body = Error
                     ''This email address has already been submitted recently.''\<rparr>,
                   table = limits', forwarded = None\<rparr>
                else if apiKey = None \<or> the apiKey = [] then
                  \<lparr>reply_of = \<lparr>status = 500, body = Error
                     ''Newsletter service not configured. Please add MAILERLITE_API_KEY to .env.local''\<rparr>,
                   table = limits', forwarded = None\<rparr>
                else
                  \<lparr>reply_of = upstream_response rt provider, table = limits',
                   forwarded = Some (subscriberData b (the (email b)))\<rparr>))"


section \<open>The email validator\<close>

text \<open>
  \<^verbatim>\<open>validateEmailAdvanced\<close>. The options are given with their defaults filled in; the
  input is \<open>None\<close> for \<^verbatim>\<open>null\<close> or \<^verbatim>\<open>undefined\<close>. The result's \<^verbatim>\<open>email\<close> and \<^verbatim>\<open>level\<close> are
  the fields \<open>original\<close> and \<open>level_used\<close>; error and warning messages are constructors.
\<close>

datatype ValidationLevel = Basic | Standard | Strict | Paranoid

record ValidateEmailOptions =
  level :: ValidationLevel
  checkDisposable :: bool
  detectSpam :: bool
  blockedDomains :: "string list"
  allowedDomains :: "string list"
  maxLength :: int

definition default_options :: ValidateEmailOptions where
  "default_options =
     \<lparr>level = Standard, checkDisposable = False, detectSpam = False, blockedDomains = [],
      allowedDomains = [], maxLength = 254\<rparr>"

datatype email_error =
    NullOrUndefined
  | EmptyEmail
  | TooLong int
  | InvalidFormat ValidationLevel
  | MissingAt
  | LocalEmpty
  | LocalTooLong
  | DomainEmpty
  | DomainTooLong
  | ConsecutiveDots
  | DomainNotAllowed
  | DomainBlocked
  | LooksLikeSpam
  | DisposableNotAllowed
  | InvalidTLD
  | LocalDotEdge
  | DomainHyphenEdge

datatype email_warning = MatchesSpamPatterns nat | DisposableService

record EmailValidationResult =
  isValid :: bool
  original :: string
  normalized :: "string option"
  level_used :: ValidationLevel
  errors :: "email_error list"
  warnings :: "email_warning list"
  spamScore :: real
  isDisposable :: "bool option"
  domain :: "(string \<times> bool) option"

definition chars :: "string \<Rightarrow> (code \<times> code) list" where
  "chars s = map (\<lambda>c. (of_char c, of_char c)) s"

definition alnum :: "(code \<times> code) list" where
  "alnum = letters_lower @ letters_upper @ digits"

definition label :: rx where
  "label =
     Cat (one_of alnum)
       (optional (Cat (up_to 61 (one_of (alnum @ chars ''-''))) (one_of alnum)))"

fun EMAIL_PATTERNS :: "ValidationLevel \<Rightarrow> rx" where
  "EMAIL_PATTERNS Basic =
     Cat (one_or_more (none_of (whitespace @ chars ''@'')))
      (Cat (lit CHR ''@'')
        (Cat (one_or_more (none_of (whitespace @ chars ''@'')))
          (Cat (lit CHR ''.'') (one_or_more (none_of (whitespace @ chars ''@''))))))"
| "EMAIL_PATTERNS Standard =
     Cat (one_or_more (one_of (alnum @ chars ''.!#$%&'' @ [(39, 39)] @ chars ''*+/=?^_''
                               @ [(96, 96)] @ chars ''{|}~-'')))
      (Cat (lit CHR ''@'')
        (Cat label (Star (Cat (lit CHR ''.'') label))))"
| "EMAIL_PATTERNS Strict =
     Cat (one_of alnum)
      (Cat (Star (one_of (alnum @ chars ''._-'')))
        (Cat (one_of alnum)
          (Cat (lit CHR ''@'')
            (Cat (one_of alnum)
              (Cat (up_to 61 (one_of (alnum @ chars ''.-'')))
                (Cat (one_of alnum)
                  (Cat (lit CHR ''.'')
                    (at_least 2 (one_of (letters_lower @ letters_upper))))))))))"
| "EMAIL_PATTERNS Paranoid =
     Cat (one_of alnum)
      (Cat (up_to 63 (one_of (alnum @ chars ''._-'')))
        (Cat (lit CHR ''@'')
          (Cat (one_of alnum)
            (Cat (up_to 253 (one_of (alnum @ chars ''.-'')))
              (Cat (lit CHR ''.'')
                (at_least 2 (one_of (letters_lower @ letters_upper))))))))"

text \<open>\<^verbatim>\<open>.\<close> in a pattern: any character but a line terminator.\<close>

definition dot :: rx where
  "dot = none_of [(10, 10), (13, 13)]"

definition SPAM_PATTERNS :: "(string \<Rightarrow> bool) list" where
  "SPAM_PATTERNS =
     [test_search (ignore_case (literal ''test@test'')),
      test_search (ignore_case (literal ''example@'')),
      test_search (ignore_case (Cat (at_least 8 (one_of digits)) (lit CHR ''@''))),
      test_search (ignore_case (Cat (lit CHR ''@'')
         (Alt (literal ''example'') (Alt (literal ''test'') (Alt (literal ''temp'')
           (Alt (literal ''fake'') (Alt (literal ''invalid'') (literal ''localhost'')))))))),
      test_search (ignore_case (Cat (at_least 20 (one_of (letters_lower @ digits))) (lit CHR ''@''))),
      test_full (ignore_case (Cat (one_or_more (one_of (letters_lower @ digits)))
         (Cat (lit CHR ''@'') (one_or_more (one_of (letters_lower @ digits)))))),
      test_suffix (ignore_case (Cat (lit CHR ''@'') (Cat (Star dot) (literal ''.local'')))),
      test_suffix (ignore_case (Cat (lit CHR ''@'') (Cat (Star dot) (literal ''.test''))))]"

definition DISPOSABLE_DOMAINS :: "string list" where
  "DISPOSABLE_DOMAINS =
     [''10minutemail.com'', ''guerrillamail.com'', ''mailinator.com'', ''temp-mail.org'',
      ''throwaway.email'', ''yopmail.com'', ''1secmail.com'', ''getnada.com'', ''mohmal.com'',
      ''tempail.com'']"

definition COMMON_DOMAINS :: "string list" where
  "COMMON_DOMAINS =
     [''gmail.com'', ''yahoo.com'', ''outlook.com'', ''hotmail.com'', ''icloud.com'',
      ''protonmail.com'', ''aol.com'', ''mail.com'', ''yandex.com'', ''zoho.com'']"

fun lastIndexOf :: "string \<Rightarrow> char \<Rightarrow> nat option" where
  "lastIndexOf [] c = None"
| "lastIndexOf (x # xs) c =
     (case lastIndexOf xs c of
        Some i \<Rightarrow> Some (Suc i)
      | None \<Rightarrow> if x = c then Some 0 else None)"

fun str_includes :: "string \<Rightarrow> string \<Rightarrow> bool" where
  "str_includes [] sub = (sub = [])"
| "str_includes (x # xs) sub = (prefix sub (x # xs) \<or> str_includes xs sub)"

text \<open>
  \<^verbatim>\<open>domainPart.match(/\.([a-zA-Z]+)$/)\<close>: the match, when there is one, starts at the last
  dot, and its group is what follows that dot.
\<close>

definition tldMatch :: "string \<Rightarrow> string option" where
  "tldMatch d =
     (if test_suffix (Cat (lit CHR ''.'') (one_or_more (one_of (letters_lower @ letters_upper)))) d
      then (case lastIndexOf d CHR ''.'' of None \<Rightarrow> None | Some i \<Rightarrow> Some (drop (Suc i) d))
      else None)"

definition strictish :: "ValidationLevel \<Rightarrow> bool" where
  "strictish l = (l = Strict \<or> l = Paranoid)"

definition validateEmailAdvanced ::
  "string option \<Rightarrow> ValidateEmailOptions \<Rightarrow> EmailValidationResult" where
  "validateEmailAdvanced input options =
     (let result = \<lparr>isValid = False, original = (case input of None \<Rightarrow> [] | Some e \<Rightarrow> e),
                    normalized = None, level_used = level options, errors = [], warnings = [],
                    spamScore = 0, isDisposable = None, domain = None\<rparr>
      in case input of
           None \<Rightarrow> result\<lparr>errors := [NullOrUndefined]\<rparr>
         | Some e \<Rightarrow>
      (let trimmedEmail = trim e
       in if trimmedEmail = [] then result\<lparr>errors := [EmptyEmail]\<rparr>
          else if int (length trimmedEmail) > maxLength options
            then result\<lparr>errors := [TooLong (maxLength options)]\<rparr>
          else
      (let n = toLowerCase trimmedEmail;
           result = result\<lparr>normalized := Some n, original := trimmedEmail\<rparr>
       in if \<not> test_full (EMAIL_PATTERNS (level options)) n
            then result\<lparr>errors := [InvalidFormat (level options)]\<rparr>
          else case lastIndexOf n CHR ''@'' of
            None \<Rightarrow> result\<lparr>errors := [MissingAt]\<rparr>
          | Some atIndex \<Rightarrow>
      (let localPart = take atIndex n;
           domainPart = drop (atIndex + 1) n;
           result = result\<lparr>domain := Some (domainPart, domainPart \<in> set COMMON_DOMAINS)\<rparr>
       in if length localPart = 0 then result\<lparr>errors := [LocalEmpty]\<rparr>
          else if length localPart > 64 then result\<lparr>errors := [LocalTooLong]\<rparr>
          else if length domainPart = 0 then result\<lparr>errors := [DomainEmpty]\<rparr>
          else if length domainPart > 253 then result\<lparr>errors := [DomainTooLong]\<rparr>
          else if str_includes n ''..'' then result\<lparr>errors := [ConsecutiveDots]\<rparr>
          else if length (allowedDomains options) > 0 \<and> domainPart \<notin> set (allowedDomains options)
            then result\<lparr>errors := [DomainNotAllowed]\<rparr>
          else if domainPart \<in> set (blockedDomains options)
            then result\<lparr>errors := [DomainBlocked]\<rparr>
          else
      (let spamIndicators = length (filter (\<lambda>pattern. pattern n) SPAM_PATTERNS);
           result =
             (if detectSpam options
              then result\<lparr>spamScore := real spamIndicators / real (length SPAM_PATTERNS),
                          warnings := (if real spamIndicators / real (length SPAM_PATTERNS) > 0
                                       then [MatchesSpamPatterns spamIndicators] else [])\<rparr>
              else result)
       in if detectSpam options \<and> spamScore result > 0.3 \<and> strictish (level options)
            then result\<lparr>errors := [LooksLikeSpam]\<rparr>
          else
      (let disposable = (domainPart \<in> set DISPOSABLE_DOMAINS);
           result =
             (if checkDisposable options
              then result\<lparr>isDisposable := Some disposable,
                          warnings := warnings result
                                      @ (if disposable then [DisposableService] else [])\<rparr>
              else result)
       in if checkDisposable options \<and> disposable \<and> strictish (level options)
            then result\<lparr>errors := [DisposableNotAllowed]\<rparr>
          else if strictish (level options) \<and>
                  (case tldMatch domainPart of None \<Rightarrow> True | Some tld \<Rightarrow> tld = [] \<or> length tld < 2)
            then result\<lparr>errors := [InvalidTLD]\<rparr>
          else if level options = Paranoid \<and>
                  (prefix ''.'' localPart \<or> suffix ''.'' localPart)
            then result\<lparr>errors := [LocalDotEdge]\<rparr>
          else if level options = Paranoid \<and>
                  (prefix ''-'' domainPart \<or> suffix ''-'' domainPart)
            then result\<lparr>errors := [DomainHyphenEdge]\<rparr>
          else result\<lparr>isValid := True\<rparr>))))))"

section \<open>The words a regular expression matches\<close>

definition seq_lang :: "code list set \<Rightarrow> code list set \<Rightarrow> code list set" where
  "seq_lang A B = {u @ v | u v. u \<in> A \<and> v \<in> B}"

inductive_set star_lang :: "code list set \<Rightarrow> code list set" for A where
  empty: "[] \<in> star_lang A"
| more: "u \<in> A \<Longrightarrow> v \<in> star_lang A \<Longrightarrow> u @ v \<in> star_lang A"

fun lang :: "rx \<Rightarrow> code list set" where
  "lang Nothing = {}"
| "lang Eps = {[]}"
| "lang (Sym cs) = {[c] | c. cset_has cs c}"
| "lang (Alt r s) = lang r \<union> lang s"
| "lang (Cat r s) = seq_lang (lang r) (lang s)"
| "lang (Star r) = star_lang (lang r)"

fun atoms :: "rx \<Rightarrow> cset set" where
  "atoms Nothing = {}"
| "atoms Eps = {}"
| "atoms (Sym cs) = {cs}"
| "atoms (Alt r s) = atoms r \<union> atoms s"
| "atoms (Cat r s) = atoms r \<union> atoms s"
| "atoms (Star r) = atoms r"


lemma exactly_numeral: "exactly (numeral k) r = Cat r (exactly (pred_numeral k) r)"
  by (simp add: numeral_eq_Suc)

lemma up_to_numeral: "up_to (numeral k) r = Alt Eps (Cat r (up_to (pred_numeral k) r))"
  by (simp add: numeral_eq_Suc)

lemmas rx_eval = test_full_def test_search_def test_suffix_def anything_def lit_def one_of_def
  none_of_def one_or_more_def optional_def at_least_def alt_def cat_def cset_has_def
  lower_code_def upper_code_def whitespace_def letters_lower_def letters_upper_def digits_def
  exactly_numeral up_to_numeral

lemmas route_eval = POST_def EMAIL_REGEX_def SPAM_EMAIL_PATTERNS_def NAME_REGEX_def
  isSpamEmail_def EMAIL_MAX_REQUESTS_def EMAIL_WINDOW_MS_def MIN_SUBMISSION_TIME_MS_def
  truthy_opt_def less_than_def checkRateLimit_def subscriberData_def upstream_response_def
  errorMessage_def network_error_def init_throws_def Let_def

section \<open>Properties of the rate limiter\<close>

subsection \<open>One call\<close>

lemma step_record:
  assumes "c k = Some r" "lastAttempt r \<le> t"
  shows "\<exists>r'. fst (checkRateLimit c key m w t) k = Some r' \<and> lastAttempt r \<le> lastAttempt r' \<and>
      lastAttempt r' \<le> t \<and>
      (key = k \<longrightarrow> lastAttempt r' = t) \<and>
      (\<not> (key = k \<and> t - lastAttempt r > w) \<longrightarrow> count r \<le> count r') \<and>
      (1 \<le> count r \<longrightarrow> 1 \<le> count r')"
  using assms by (auto simp: checkRateLimit_def Let_def split: option.splits)

lemma counts_ok_step: "counts_ok c \<Longrightarrow> counts_ok (fst (checkRateLimit c key m w t))"
  by (fastforce simp: counts_ok_def checkRateLimit_def Let_def split: option.splits if_splits)

lemma after_call:
  "\<exists>r. fst (checkRateLimit c k m w t) k = Some r \<and> lastAttempt r = t"
  by (auto simp: checkRateLimit_def Let_def split: option.splits)

lemma unlimited_expired:
  assumes "c k = Some r" "1 \<le> count r" "\<not> limited (snd (checkRateLimit c k 1 w t))"
  shows "t - lastAttempt r > w"
  using assms by (auto simp: checkRateLimit_def Let_def split: if_splits)

lemma later_unlimited:
  assumes "c k = Some r" "1 \<le> count r" "sorted (map snd cs)"
    "\<forall>x\<in>set cs. lastAttempt r \<le> snd x" "j < length cs" "fst (cs ! j) = k"
    "\<not> limited (outcomes 1 w c cs ! j)"
  shows "snd (cs ! j) - lastAttempt r > w"
  using assms
proof (induction cs arbitrary: c r j)
  case Nil
  then show ?case by simp
next
  case (Cons a cs)
  obtain key t where a: "a = (key, t)" by (cases a)
  show ?case
  proof (cases j)
    case 0
    with Cons.prems a have "key = k" "\<not> limited (snd (checkRateLimit c k 1 w t))" by auto
    with unlimited_expired[of c k r w t] Cons.prems(1,2) have "t - lastAttempt r > w" by simp
    then show ?thesis using 0 a by simp
  next
    case (Suc j')
    from Cons.prems a have le: "lastAttempt r \<le> t" by simp
    from step_record[of c k r t key 1 w] Cons.prems(1,2) le
    obtain r1 where r1: "fst (checkRateLimit c key 1 w t) k = Some r1"
      "lastAttempt r \<le> lastAttempt r1" "lastAttempt r1 \<le> t" "1 \<le> count r1" by blast
    have s: "sorted (map snd cs)" using Cons.prems(3) by simp
    have b: "\<forall>x\<in>set cs. lastAttempt r1 \<le> snd x" using Cons.prems(3) a r1(3) by fastforce
    have j': "j' < length cs" "fst (cs ! j') = k" using Cons.prems(5,6) Suc by auto
    have u: "\<not> limited (outcomes 1 w (fst (checkRateLimit c key 1 w t)) cs ! j')"
      using Cons.prems(7) Suc a by simp
    from Cons.IH[of "fst (checkRateLimit c key 1 w t)" r1 j'] r1(1,4) s b j' u
    have "snd (cs ! j') - lastAttempt r1 > w" by blast
    then show ?thesis using r1(2) Suc by simp
  qed
qed

lemma unlimited_gap:
  assumes "counts_ok c" "sorted (map snd cs)" "i < j" "j < length cs"
    "fst (cs ! i) = k" "fst (cs ! j) = k"
    "\<not> limited (outcomes 1 w c cs ! i)" "\<not> limited (outcomes 1 w c cs ! j)"
  shows "snd (cs ! j) - snd (cs ! i) > w"
  using assms
proof (induction cs arbitrary: c i j)
  case Nil
  then show ?case by simp
next
  case (Cons a cs)
  obtain key t where a: "a = (key, t)" by (cases a)
  let ?c1 = "fst (checkRateLimit c key 1 w t)"
  have ok1: "counts_ok ?c1" using Cons.prems(1) by (rule counts_ok_step)
  have s: "sorted (map snd cs)" using Cons.prems(2) by simp
  obtain j' where j: "j = Suc j'" using Cons.prems(3) by (cases j) auto
  have j': "j' < length cs" "fst (cs ! j') = k" using Cons.prems(4,6) j by auto
  have uj: "\<not> limited (outcomes 1 w ?c1 cs ! j')" using Cons.prems(8) j a by simp
  show ?case
  proof (cases i)
    case 0
    then have kk: "key = k" using Cons.prems(5) a by simp
    from after_call[of c k 1 w t] obtain r1 where r1: "?c1 k = Some r1" "lastAttempt r1 = t"
      using kk by blast
    have c1: "1 \<le> count r1" using ok1 r1(1) by (auto simp: counts_ok_def)
    have b: "\<forall>x\<in>set cs. lastAttempt r1 \<le> snd x" using Cons.prems(2) a r1(2) by fastforce
    from later_unlimited[of ?c1 k r1 cs j' w] r1(1) c1 s b j' uj
    have "snd (cs ! j') - t > w" using r1(2) by simp
    then show ?thesis using 0 j a by simp
  next
    case (Suc i')
    have "snd (cs ! j') - snd (cs ! i') > w"
      using Cons.IH[of ?c1 i' j'] ok1 s Cons.prems(3,5,7) j j' uj Suc a by simp
    then show ?thesis using Suc j by simp
  qed
qed

lemma counts_ok_empty: "counts_ok Map.empty"
  by (simp add: counts_ok_def)


subsection \<open>Two calls in rapid succession\<close>

text \<open>
  Claim C1. On a fresh table, two calls with the same key and \<open>maxRequests = 1\<close>, the
  second at most \<open>windowMs\<close> after the first, return \<open>limited = false\<close> and then
  \<open>limited = true\<close>.
\<close>

theorem rapid_succession:
  assumes "now2 - now1 \<le> windowMs"
  shows "\<not> limited (snd (checkRateLimit Map.empty key 1 windowMs now1)) \<and>
         limited (snd (checkRateLimit (fst (checkRateLimit Map.empty key 1 windowMs now1))
                    key 1 windowMs now2))"
  using assms by (simp add: checkRateLimit_def Let_def)

theorem rapid_succession_witness:
  "(1005::int) - 1000 \<le> 86400000 \<and>
   \<not> limited (snd (checkRateLimit Map.empty ''a@b.co'' 1 86400000 1000)) \<and>
   limited (snd (checkRateLimit (fst (checkRateLimit Map.empty ''a@b.co'' 1 86400000 1000))
              ''a@b.co'' 1 86400000 1005))"
  using rapid_succession [of 1005 1000 86400000 "''a@b.co''"] by simp

subsection \<open>Monotonicity of a stored record\<close>






subsection \<open>Two admitted calls are more than a window apart\<close>

text \<open>
  Claim C6 as stated fails: with \<open>maxRequests = 1\<close> and \<open>windowMs\<close> of 24 hours, no
  sequence of calls with non-decreasing clock readings, started on the empty table, has
  two calls for one key that both return \<open>limited = false\<close> less than \<open>windowMs\<close> apart.
  Every call, limited or not, sets \<open>lastAttempt\<close> to its own clock reading, so the window
  restarts at each attempt and has no fixed boundary to straddle.
\<close>

theorem no_boundary_burst_counterexample:
  "\<not> (\<exists>cs i j. sorted (map snd cs) \<and> i < j \<and> j < length cs \<and>
         fst (cs ! i) = fst (cs ! j) \<and>
         \<not> limited (outcomes 1 86400000 Map.empty cs ! i) \<and>
         \<not> limited (outcomes 1 86400000 Map.empty cs ! j) \<and>
         snd (cs ! j) - snd (cs ! i) < 86400000)"
proof
  assume "\<exists>cs i j. sorted (map snd cs) \<and> i < j \<and> j < length cs \<and>
         fst (cs ! i) = fst (cs ! j) \<and>
         \<not> limited (outcomes 1 86400000 Map.empty cs ! i) \<and>
         \<not> limited (outcomes 1 86400000 Map.empty cs ! j) \<and>
         snd (cs ! j) - snd (cs ! i) < 86400000"
  then obtain cs i j where h: "sorted (map snd cs)" "i < j" "j < length cs"
    "fst (cs ! i) = fst (cs ! j)"
    "\<not> limited (outcomes 1 86400000 Map.empty cs ! i)"
    "\<not> limited (outcomes 1 86400000 Map.empty cs ! j)"
    "snd (cs ! j) - snd (cs ! i) < 86400000" by blast
  from unlimited_gap [of Map.empty cs i j "fst (cs ! j)" 86400000] counts_ok_empty h(1-6)
  have "snd (cs ! j) - snd (cs ! i) > 86400000" by simp
  with h(7) show False by simp
qed

text \<open>
  Claim C6, amended. With \<open>maxRequests = 1\<close>, in every sequence of calls with
  non-decreasing clock readings started on the empty table, two calls for the same key
  that both return \<open>limited = false\<close> are more than \<open>windowMs\<close> apart.
\<close>

theorem admitted_calls_apart:
  assumes "sorted (map snd cs)" "i < j" "j < length cs" "fst (cs ! i) = fst (cs ! j)"
    "\<not> limited (outcomes 1 w Map.empty cs ! i)" "\<not> limited (outcomes 1 w Map.empty cs ! j)"
  shows "snd (cs ! j) - snd (cs ! i) > w"
  using unlimited_gap [of Map.empty cs i j "fst (cs ! j)" w] counts_ok_empty assms by simp

theorem admitted_calls_apart_witness:
  "sorted (map snd [(''k'', 0::int), (''k'', 5), (''k'', 86400006)]) \<and> (0::nat) < 2 \<and>
   2 < length [(''k'', 0::int), (''k'', 5), (''k'', 86400006)] \<and>
   \<not> limited (outcomes 1 86400000 Map.empty [(''k'', 0), (''k'', 5), (''k'', 86400006)] ! 0) \<and>
   limited (outcomes 1 86400000 Map.empty [(''k'', 0), (''k'', 5), (''k'', 86400006)] ! 1) \<and>
   \<not> limited (outcomes 1 86400000 Map.empty [(''k'', 0), (''k'', 5), (''k'', 86400006)] ! 2) \<and>
   snd ([(''k'', 0::int), (''k'', 5), (''k'', 86400006)] ! 2)
     - snd ([(''k'', 0::int), (''k'', 5), (''k'', 86400006)] ! 0) > 86400000"
  using admitted_calls_apart [of "[(''k'', 0), (''k'', 5), (''k'', 86400006)]" 0 2 86400000]
  by (simp add: checkRateLimit_def Let_def)

section \<open>Properties of the subscribe handler\<close>

subsection \<open>Requests that reach the rate limiter\<close>


lemma POST_counts_ok:
  "counts_ok limits \<Longrightarrow> counts_ok (table (POST rt limits apiKey now provider req))"
  using counts_ok_step [of limits "the (email (the req))" 1 86400000 now]
  by (auto simp: POST_def EMAIL_MAX_REQUESTS_def EMAIL_WINDOW_MS_def Let_def
      split: option.splits prod.splits)


subsection \<open>Sample addresses\<close>





subsection \<open>Honeypot\<close>

text \<open>
  Claim C3. A request whose \<open>website\<close> field is a non-empty string is answered with
  status 200 and \<^verbatim>\<open>{success: true}\<close> whatever its other fields are; the rate-limit
  table is unchanged and the provider is not called.
\<close>

theorem honeypot_silent_accept:
  assumes "website b = Some (JStr s)" "s \<noteq> []"
  shows "POST rt limits apiKey now provider (Some b) =
           \<lparr>reply_of = \<lparr>status = 200, body = Success\<rparr>, table = limits, forwarded = None\<rparr>"
  using assms by (simp add: POST_def truthy_opt_def)

theorem honeypot_silent_accept_witness:
  "\<forall>rt. POST rt Map.empty None 0 FetchThrows
     (Some \<lparr>email = Some ''not an email'', name = None, interests = None,
            website = Some (JStr ''http://spam.example''), submissionTime = Some (JNum (Finite 5000))\<rparr>) =
           \<lparr>reply_of = \<lparr>status = 200, body = Success\<rparr>, table = Map.empty, forwarded = None\<rparr>"
  using honeypot_silent_accept [of "\<lparr>email = Some ''not an email'', name = None, interests = None,
            website = Some (JStr ''http://spam.example''), submissionTime = Some (JNum (Finite 5000))\<rparr>"
            "''http://spam.example''" _ Map.empty None 0 FetchThrows]
  by simp

subsection \<open>Submission time\<close>

text \<open>
  Claim C7. A request with an empty honeypot and \<open>submissionTime = 500\<close> is answered with
  status 200 and \<^verbatim>\<open>{success: true}\<close>, and the provider is not called.
\<close>

theorem too_fast_silent_accept:
  assumes "\<not> truthy_opt (website b)" "submissionTime b = Some (JNum (Finite 500))"
  shows "POST rt limits apiKey now provider (Some b) =
           \<lparr>reply_of = \<lparr>status = 200, body = Success\<rparr>, table = limits, forwarded = None\<rparr>"
  using assms by (simp add: POST_def less_than_def MIN_SUBMISSION_TIME_MS_def)

theorem too_fast_silent_accept_witness:
  "\<forall>rt. \<not> truthy_opt (Some (JStr '''')) \<and> POST rt Map.empty (Some ''key'') 0 (FetchResponse 201 (Some (JObj [])))
     (Some \<lparr>email = Some ''new.user@gmail.com'', name = None, interests = None,
            website = Some (JStr ''''), submissionTime = Some (JNum (Finite 500))\<rparr>) =
           \<lparr>reply_of = \<lparr>status = 200, body = Success\<rparr>, table = Map.empty, forwarded = None\<rparr>"
  using too_fast_silent_accept [of "\<lparr>email = Some ''new.user@gmail.com'', name = None, interests = None,
            website = Some (JStr ''''), submissionTime = Some (JNum (Finite 500))\<rparr>"
            _ Map.empty "Some ''key''" 0 "FetchResponse 201 (Some (JObj []))"]
  by (simp add: truthy_opt_def)




subsection \<open>The key of the rate-limit table\<close>





subsection \<open>The rate limit is consumed before the credential check\<close>




subsection \<open>The provider's outcome\<close>

text \<open>
  Claim C8 as stated fails in its last part: when the provider's response body does not
  parse, the handler substitutes the message \<^verbatim>\<open>Failed to parse response\<close>, so a 404 is
  passed on as 404 and a 200 as success; and a request body that does not parse is
  answered with 400. None of them is a 500.
\<close>

theorem parse_failure_not_500_counterexample:
  "\<forall>rt. upstream_response rt (FetchResponse 404 None) =
       \<lparr>status = 404, body = Error ''Subscription failed: Failed to parse response''\<rparr> \<and>
     upstream_response rt (FetchResponse 200 None) = \<lparr>status = 200, body = Success\<rparr> \<and>
     reply_of (POST rt Map.empty (Some ''key'') 0 FetchThrows None) =
       \<lparr>status = 400, body = Error ''Failed to process request''\<rparr>"
  by (simp add: upstream_response_def errorMessage_def truthy_opt_def init_throws_def POST_def)

text \<open>
  Claim C8, amended. A 2xx status gives \<^verbatim>\<open>{success: true}\<close> with status 200. A status
  from 300 to 599 other than 304 on an object body gives, with the provider's status, the error
  \<^verbatim>\<open>Subscription failed: \<close> followed by the body's \<^verbatim>\<open>message\<close> when that is truthy, and
  otherwise by the text for 401, 429 or 422 (the stringified \<^verbatim>\<open>errors\<close> when truthy, else
  \<^verbatim>\<open>Validation error\<close>) or \<^verbatim>\<open>Unknown error\<close>. A \<^verbatim>\<open>fetch\<close> that throws gives the fixed
  500 network error. A response body that does not parse counts as the message
  \<^verbatim>\<open>Failed to parse response\<close>.
\<close>

theorem upstream_mapping:
  "(200 \<le> st \<and> st \<le> 299 \<longrightarrow>
      upstream_response rt (FetchResponse st parsed) = \<lparr>status = 200, body = Success\<rparr>) \<and>
   (300 \<le> st \<and> st \<le> 599 \<and> st \<noteq> 304 \<and> map_of kvs ''message'' = Some v \<and> truthy v \<longrightarrow>
      upstream_response rt (FetchResponse st (Some (JObj kvs))) =
        \<lparr>status = st, body = Error (''Subscription failed: '' @ interpolate rt v)\<rparr>) \<and>
   (300 \<le> st \<and> st \<le> 599 \<and> st \<noteq> 304 \<and> \<not> truthy_opt (map_of kvs ''message'') \<longrightarrow>
      upstream_response rt (FetchResponse st (Some (JObj kvs))) =
        \<lparr>status = st, body = Error (''Subscription failed: '' @
           (if st = 401 then ''Invalid API key''
            else if st = 429 then ''Rate limit exceeded''
            else if st = 422 then
              (if truthy_opt (map_of kvs ''errors'')
               then JSON_stringify rt (the (map_of kvs ''errors'')) else ''Validation error'')
            else ''Unknown error''))\<rparr>) \<and>
   upstream_response rt FetchThrows =
     \<lparr>status = 500, body = Error ''Network error. Please try again later.''\<rparr> \<and>
   (300 \<le> st \<and> st \<le> 599 \<and> st \<noteq> 304 \<longrightarrow>
      upstream_response rt (FetchResponse st None) =
        \<lparr>status = st, body = Error ''Subscription failed: Failed to parse response''\<rparr>)"
  by (simp add: upstream_response_def errorMessage_def network_error_def truthy_opt_def
      init_throws_def)

theorem upstream_mapping_witness:
  "\<forall>rt. upstream_response rt (FetchResponse 201 (Some (JObj []))) = \<lparr>status = 200, body = Success\<rparr> \<and>
     upstream_response rt (FetchResponse 409 (Some (JObj [(''message'', JStr ''Subscriber exists'')]))) =
       \<lparr>status = 409, body = Error ''Subscription failed: Subscriber exists''\<rparr> \<and>
     upstream_response rt (FetchResponse 401 (Some (JObj []))) =
       \<lparr>status = 401, body = Error ''Subscription failed: Invalid API key''\<rparr> \<and>
     upstream_response rt (FetchResponse 502 None) =
       \<lparr>status = 502, body = Error ''Subscription failed: Failed to parse response''\<rparr>"
proof
  fix rt
  show "upstream_response rt (FetchResponse 201 (Some (JObj []))) = \<lparr>status = 200, body = Success\<rparr> \<and>
     upstream_response rt (FetchResponse 409 (Some (JObj [(''message'', JStr ''Subscriber exists'')]))) =
       \<lparr>status = 409, body = Error ''Subscription failed: Subscriber exists''\<rparr> \<and>
     upstream_response rt (FetchResponse 401 (Some (JObj []))) =
       \<lparr>status = 401, body = Error ''Subscription failed: Invalid API key''\<rparr> \<and>
     upstream_response rt (FetchResponse 502 None) =
       \<lparr>status = 502, body = Error ''Subscription failed: Failed to parse response''\<rparr>"
    using upstream_mapping [of 201 rt "Some (JObj [])" "[]" JNull]
      upstream_mapping [of 409 rt None "[(''message'', JStr ''Subscriber exists'')]" "JStr ''Subscriber exists''"]
      upstream_mapping [of 401 rt None "[]" JNull]
      upstream_mapping [of 502 rt None "[]" JNull]
    by (simp add: truthy_opt_def)
qed

section \<open>Properties of the matcher\<close>

lemma lang_alt: "lang (alt r s) = lang r \<union> lang s"
  by (auto simp: alt_def)

lemma lang_cat: "lang (cat r s) = seq_lang (lang r) (lang s)"
  by (auto simp: cat_def seq_lang_def)

lemma nullable_lang: "nullable r \<longleftrightarrow> [] \<in> lang r"
  by (induction r) (auto simp: seq_lang_def intro: star_lang.empty)

lemma star_lang_split:
  assumes "x \<in> star_lang A" "x = c # w"
  shows "\<exists>u v. w = u @ v \<and> c # u \<in> A \<and> v \<in> star_lang A"
  using assms
proof (induction arbitrary: w rule: star_lang.induct)
  case empty
  then show ?case by simp
next
  case (more u v)
  show ?case
  proof (cases u)
    case Nil
    with more show ?thesis by simp
  next
    case (Cons a u')
    with more.prems have "a = c" "w = u' @ v" by simp_all
    with more.hyps Cons show ?thesis by blast
  qed
qed

lemma star_lang_cons:
  "c # w \<in> star_lang A \<longleftrightarrow> (\<exists>u v. w = u @ v \<and> c # u \<in> A \<and> v \<in> star_lang A)"
proof
  assume "c # w \<in> star_lang A"
  then show "\<exists>u v. w = u @ v \<and> c # u \<in> A \<and> v \<in> star_lang A"
    by (rule star_lang_split) simp
next
  assume "\<exists>u v. w = u @ v \<and> c # u \<in> A \<and> v \<in> star_lang A"
  then obtain u v where "w = u @ v" "c # u \<in> A" "v \<in> star_lang A" by blast
  then show "c # w \<in> star_lang A"
    using star_lang.more [of "c # u" A v] by simp
qed

lemma deriv_lang: "w \<in> lang (deriv c r) \<longleftrightarrow> c # w \<in> lang r"
proof (induction r arbitrary: w)
  case (Cat r s)
  show ?case
  proof (cases "nullable r")
    case True
    then have e: "[] \<in> lang r" by (simp add: nullable_lang)
    show ?thesis
      using True e Cat
      by (auto simp: lang_alt lang_cat seq_lang_def Cons_eq_append_conv)
  next
    case False
    then have e: "[] \<notin> lang r" by (simp add: nullable_lang)
    show ?thesis
      using False e Cat
      by (auto simp: lang_cat seq_lang_def Cons_eq_append_conv)
  qed
next
  case (Star r)
  then show ?case
    by (auto simp: lang_cat seq_lang_def star_lang_cons)
qed (auto simp: lang_alt)

lemma matches_lang: "matches r w \<longleftrightarrow> w \<in> lang r"
  by (induction w arbitrary: r) (simp_all add: nullable_lang deriv_lang)

lemma star_lang_all:
  assumes "w \<in> star_lang A" "\<forall>u\<in>A. \<forall>c\<in>set u. P c"
  shows "\<forall>c\<in>set w. P c"
  using assms by (induction rule: star_lang.induct) auto

lemma lang_codes:
  assumes "w \<in> lang r" "\<forall>cs\<in>atoms r. \<forall>c. cset_has cs c \<longrightarrow> P c"
  shows "\<forall>x\<in>set w. P x"
  using assms
proof (induction r arbitrary: w)
  case (Alt r s)
  have a: "\<forall>cs\<in>atoms r. \<forall>c. cset_has cs c \<longrightarrow> P c" "\<forall>cs\<in>atoms s. \<forall>c. cset_has cs c \<longrightarrow> P c"
    using Alt.prems(2) by auto
  from Alt.prems(1) have "w \<in> lang r \<or> w \<in> lang s" by simp
  then show ?case using Alt.IH(1) [OF _ a(1)] Alt.IH(2) [OF _ a(2)] by blast
next
  case (Cat r s)
  have a: "\<forall>cs\<in>atoms r. \<forall>c. cset_has cs c \<longrightarrow> P c" "\<forall>cs\<in>atoms s. \<forall>c. cset_has cs c \<longrightarrow> P c"
    using Cat.prems(2) by auto
  from Cat.prems(1) obtain u v where uv: "w = u @ v" "u \<in> lang r" "v \<in> lang s"
    by (auto simp: seq_lang_def)
  show ?case using Cat.IH(1) [OF uv(2) a(1)] Cat.IH(2) [OF uv(3) a(2)] uv(1) by auto
next
  case (Star r)
  have "\<forall>u\<in>lang r. \<forall>c\<in>set u. P c" using Star.IH Star.prems(2) by simp
  with Star.prems(1) show ?case using star_lang_all [of w "lang r" P] by simp
qed auto

lemma star_lang_map:
  assumes "w \<in> star_lang A" "\<forall>u\<in>A. map f u \<in> A"
  shows "map f w \<in> star_lang A"
  using assms by (induction rule: star_lang.induct) (auto intro: star_lang.intros)

lemma lang_map:
  assumes "w \<in> lang r" "\<forall>cs\<in>atoms r. \<forall>c. cset_has cs c \<longrightarrow> cset_has cs (f c)"
  shows "map f w \<in> lang r"
  using assms
proof (induction r arbitrary: w)
  case (Alt r s)
  have a: "\<forall>cs\<in>atoms r. \<forall>c. cset_has cs c \<longrightarrow> cset_has cs (f c)"
    "\<forall>cs\<in>atoms s. \<forall>c. cset_has cs c \<longrightarrow> cset_has cs (f c)"
    using Alt.prems(2) by auto
  from Alt.prems(1) have "w \<in> lang r \<or> w \<in> lang s" by simp
  then show ?case using Alt.IH(1) [OF _ a(1)] Alt.IH(2) [OF _ a(2)] by auto
next
  case (Cat r s)
  have a: "\<forall>cs\<in>atoms r. \<forall>c. cset_has cs c \<longrightarrow> cset_has cs (f c)"
    "\<forall>cs\<in>atoms s. \<forall>c. cset_has cs c \<longrightarrow> cset_has cs (f c)"
    using Cat.prems(2) by auto
  from Cat.prems(1) obtain u v where uv: "w = u @ v" "u \<in> lang r" "v \<in> lang s"
    by (auto simp: seq_lang_def)
  show ?case using Cat.IH(1) [OF uv(2) a(1)] Cat.IH(2) [OF uv(3) a(2)] uv(1)
    by (auto simp: seq_lang_def)
next
  case (Star r)
  have "\<forall>u\<in>lang r. map f u \<in> lang r" using Star.IH Star.prems(2) by simp
  with Star.prems(1) show ?case using star_lang_map [of w "lang r" f] by simp
qed auto

lemma atoms_up_to: "atoms (up_to n r) \<subseteq> atoms r"
  by (induction n) auto

section \<open>Properties of the email validator\<close>

subsection \<open>Lower-casing and trimming\<close>

lemma lower_code_less: "n < 256 \<Longrightarrow> lower_code n < 256"
  by (auto simp: lower_code_def)

lemma lower_code_mod: "lower_code (of_char c) mod 256 = lower_code (of_char c)"
  using lower_code_less [of "of_char c"] by simp

lemma lower_code_take_bit: "take_bit 8 (lower_code (of_char c)) = lower_code (of_char c)"
  using lower_code_less [of "of_char c"] by (simp add: take_bit_nat_eq_self)

lemma map_of_char_toLowerCase: "map of_char (toLowerCase s) = map lower_code (map of_char s)"
  by (simp add: toLowerCase_def lower_code_mod)

lemma lower_at: "(char_of (lower_code (of_char c)) = CHR ''@'') = (c = CHR ''@'')"
proof -
  have "(char_of (lower_code (of_char c)) = CHR ''@'') = ((64::nat) = lower_code (of_char c))"
    by (auto simp: char_of_eq_iff lower_code_take_bit)
  also have "\<dots> = (of_char c = (64::nat))"
    by (auto simp: lower_code_def)
  also have "\<dots> = (of_char c = (of_char CHR ''@'' :: nat))"
    by simp
  also have "\<dots> = (c = CHR ''@'')"
    by (rule of_char_eq_iff)
  finally show ?thesis .
qed

lemma lower_dot: "(char_of (lower_code (of_char c)) = CHR ''.'') = (c = CHR ''.'')"
proof -
  have "(char_of (lower_code (of_char c)) = CHR ''.'') = ((46::nat) = lower_code (of_char c))"
    by (auto simp: char_of_eq_iff lower_code_take_bit)
  also have "\<dots> = (of_char c = (46::nat))"
    by (auto simp: lower_code_def)
  also have "\<dots> = (of_char c = (of_char CHR ''.'' :: nat))"
    by simp
  also have "\<dots> = (c = CHR ''.'')"
    by (rule of_char_eq_iff)
  finally show ?thesis .
qed

lemma lastIndexOf_None: "c \<notin> set xs \<Longrightarrow> lastIndexOf xs c = None"
  by (induction xs) auto

lemma lastIndexOf_split: "c \<notin> set ds \<Longrightarrow> lastIndexOf (ls @ c # ds) c = Some (length ls)"
  by (induction ls) (simp_all add: lastIndexOf_None)

lemma lastIndexOf_toLowerCase: "lastIndexOf (toLowerCase s) CHR ''@'' = lastIndexOf s CHR ''@''"
  by (induction s) (simp_all add: toLowerCase_def lower_at)

lemma lower_dot_sym: "(CHR ''.'' = char_of (lower_code (of_char c))) = (CHR ''.'' = c)"
  by (metis lower_dot)

lemma prefix_dots_lower:
  "prefix ''..'' (map (\<lambda>c. char_of (lower_code (of_char c))) xs) = prefix ''..'' xs"
proof (cases xs)
  case Nil
  then show ?thesis by simp
next
  case (Cons a ys)
  show ?thesis
  proof (cases ys)
    case Nil
    with Cons show ?thesis by simp
  next
    case (Cons b zs)
    with \<open>xs = a # ys\<close> show ?thesis
      by (simp only: list.map Cons_prefix_Cons Nil_prefix lower_dot_sym)
  qed
qed

lemma str_includes_toLowerCase: "str_includes (toLowerCase s) ''..'' = str_includes s ''..''"
proof (induction s)
  case Nil
  then show ?case by (simp add: toLowerCase_def)
next
  case (Cons a s)
  have "prefix ''..'' (toLowerCase (a # s)) = prefix ''..'' (a # s)"
    unfolding toLowerCase_def by (rule prefix_dots_lower)
  then show ?case using Cons by (simp add: toLowerCase_def)
qed

lemma trim_subset: "set (trim s) \<subseteq> set s"
proof -
  have "set (trim s) \<subseteq> set (dropWhile is_space s)"
    unfolding trim_def using set_dropWhileD by fastforce
  also have "\<dots> \<subseteq> set s" using set_dropWhileD by fastforce
  finally show ?thesis .
qed

lemma trim_no_space: "\<forall>c\<in>set s. \<not> is_space c \<Longrightarrow> trim s = s"
proof -
  assume a: "\<forall>c\<in>set s. \<not> is_space c"
  have d: "\<And>xs. \<forall>c\<in>set xs. \<not> is_space c \<Longrightarrow> dropWhile is_space xs = xs"
    by (case_tac xs) auto
  show ?thesis using a d [of s] d [of "rev s"] by (simp add: trim_def)
qed

lemma no_at_rejected:
  assumes "CHR ''@'' \<notin> set s"
  shows "\<not> isValid (validateEmailAdvanced (Some s) options)"
proof -
  have "CHR ''@'' \<notin> set (trim s)" using assms trim_subset by blast
  then have "lastIndexOf (trim s) CHR ''@'' = None" by (rule lastIndexOf_None)
  then have "lastIndexOf (toLowerCase (trim s)) CHR ''@'' = None"
    by (simp add: lastIndexOf_toLowerCase)
  then show ?thesis by (simp add: validateEmailAdvanced_def Let_def)
qed

subsection \<open>The standard pattern\<close>

lemma standard_atoms:
  "atoms (EMAIL_PATTERNS Standard) \<subseteq>
     {CSet False False (alnum @ chars ''.!#$%&'' @ [(39, 39)] @ chars ''*+/=?^_''
                               @ [(96, 96)] @ chars ''{|}~-''),
      CSet False False [(64, 64)], CSet False False [(46, 46)],
      CSet False False alnum, CSet False False (alnum @ chars ''-'')}"
  using atoms_up_to [of 61 "one_of (alnum @ chars ''-'')"]
  by (auto simp: one_or_more_def one_of_def lit_def label_def optional_def)

lemma standard_atom_lower:
  assumes "cs \<in> atoms (EMAIL_PATTERNS Standard)" "cset_has cs c"
  shows "cset_has cs (lower_code c)"
proof -
  from assms(1) standard_atoms
  have "cs \<in> {CSet False False (alnum @ chars ''.!#$%&'' @ [(39, 39)] @ chars ''*+/=?^_''
                               @ [(96, 96)] @ chars ''{|}~-''),
      CSet False False [(64, 64)], CSet False False [(46, 46)],
      CSet False False alnum, CSet False False (alnum @ chars ''-'')}" by blast
  with assms(2) show ?thesis
    by (auto simp: cset_has_def alnum_def chars_def letters_lower_def letters_upper_def
        digits_def lower_code_def)
qed

lemma standard_atom_no_space:
  assumes "cs \<in> atoms (EMAIL_PATTERNS Standard)" "cset_has cs c"
  shows "\<not> in_ranges c whitespace"
proof -
  from assms(1) standard_atoms
  have "cs \<in> {CSet False False (alnum @ chars ''.!#$%&'' @ [(39, 39)] @ chars ''*+/=?^_''
                               @ [(96, 96)] @ chars ''{|}~-''),
      CSet False False [(64, 64)], CSet False False [(46, 46)],
      CSet False False alnum, CSet False False (alnum @ chars ''-'')}" by blast
  with assms(2) show ?thesis
    by (auto simp: cset_has_def alnum_def chars_def letters_lower_def letters_upper_def
        digits_def whitespace_def)
qed

lemma standard_split:
  assumes "S \<in> lang (EMAIL_PATTERNS Standard)"
  shows "\<exists>l d. S = l @ 64 # d \<and> l \<noteq> [] \<and> d \<noteq> [] \<and> 64 \<notin> set l \<and> 64 \<notin> set d"
proof -
  let ?L = "one_or_more (one_of (alnum @ chars ''.!#$%&'' @ [(39, 39)] @ chars ''*+/=?^_''
                               @ [(96, 96)] @ chars ''{|}~-''))"
  let ?D = "Cat label (Star (Cat (lit CHR ''.'') label))"
  from assms have "S \<in> seq_lang (lang ?L) (seq_lang (lang (lit CHR ''@''))
      (seq_lang (lang label) (lang (Star (Cat (lit CHR ''.'') label)))))"
    by (simp only: EMAIL_PATTERNS.simps lang.simps(5))
  then have "S \<in> seq_lang (lang ?L) (seq_lang (lang (lit CHR ''@'')) (lang ?D))"
    by (simp only: lang.simps(5))
  then obtain l a d where s: "S = l @ a @ d" "l \<in> lang ?L" "a \<in> lang (lit CHR ''@'')"
    "d \<in> lang ?D"
    unfolding seq_lang_def by blast
  have a: "a = [64]" using s(3) by (auto simp: lit_def cset_has_def)
  have "\<not> nullable ?L" by (simp add: one_or_more_def one_of_def)
  then have l0: "l \<noteq> []" using s(2) nullable_lang by blast
  have "\<not> nullable ?D" by (simp add: label_def one_of_def)
  then have d0: "d \<noteq> []" using s(4) nullable_lang by blast
  have "\<forall>cs\<in>atoms ?L. \<forall>c. cset_has cs c \<longrightarrow> c \<noteq> 64"
    by (auto simp: one_or_more_def one_of_def cset_has_def alnum_def chars_def
        letters_lower_def letters_upper_def digits_def)
  then have l1: "\<forall>x\<in>set l. x \<noteq> 64" using s(2) by (rule lang_codes [rotated])
  have "atoms ?D \<subseteq> {CSet False False [(46, 46)], CSet False False alnum,
          CSet False False (alnum @ chars ''-'')}"
    using atoms_up_to [of 61 "one_of (alnum @ chars ''-'')"]
    by (auto simp: one_of_def lit_def label_def optional_def)
  then have "\<forall>cs\<in>atoms ?D. \<forall>c. cset_has cs c \<longrightarrow> c \<noteq> 64"
    by (auto simp: cset_has_def alnum_def chars_def letters_lower_def letters_upper_def
        digits_def)
  then have d1: "\<forall>x\<in>set d. x \<noteq> 64" using s(4) by (rule lang_codes [rotated])
  show ?thesis using s(1) a l0 d0 l1 d1 by auto
qed

lemma standard_string_split:
  assumes "test_full (EMAIL_PATTERNS Standard) s"
  shows "\<exists>ls ds. s = ls @ CHR ''@'' # ds \<and> ls \<noteq> [] \<and> ds \<noteq> [] \<and>
           CHR ''@'' \<notin> set ls \<and> CHR ''@'' \<notin> set ds"
proof -
  from assms have "map of_char s \<in> lang (EMAIL_PATTERNS Standard)"
    by (simp only: test_full_def matches_lang)
  from standard_split [OF this] obtain l d where
    s: "(map of_char s :: nat list) = l @ 64 # d" "l \<noteq> []" "d \<noteq> []" "64 \<notin> set l" "64 \<notin> set d"
    by blast
  from s(1) obtain ls rest where r: "s = ls @ rest" "map of_char ls = l"
    "map of_char rest = 64 # d"
    by (auto simp: map_eq_append_conv)
  from r(3) obtain c ds where c: "rest = c # ds" "(of_char c :: nat) = 64" "map of_char ds = d"
    by (auto simp: map_eq_Cons_conv)
  have "(of_char c :: nat) = of_char CHR ''@''" using c(2) by simp
  then have c': "c = CHR ''@''" by (simp only: of_char_eq_iff)
  have "CHR ''@'' \<notin> set ls"
  proof
    assume "CHR ''@'' \<in> set ls"
    then have "(of_char CHR ''@'' :: nat) \<in> set (map of_char ls)" by (simp only: set_map image_eqI)
    then show False using r(2) s(4) by simp
  qed
  moreover have "CHR ''@'' \<notin> set ds"
  proof
    assume "CHR ''@'' \<in> set ds"
    then have "(of_char CHR ''@'' :: nat) \<in> set (map of_char ds)" by (simp only: set_map image_eqI)
    then show False using c(3) s(5) by simp
  qed
  ultimately show ?thesis using r(1,2) c(1,3) c' s(2,3) by auto
qed

lemma standard_no_space:
  assumes "test_full (EMAIL_PATTERNS Standard) s"
  shows "trim s = s"
proof -
  from assms have m: "map of_char s \<in> lang (EMAIL_PATTERNS Standard)"
    by (simp only: test_full_def matches_lang)
  have "\<forall>cs\<in>atoms (EMAIL_PATTERNS Standard). \<forall>c. cset_has cs c \<longrightarrow> \<not> in_ranges c whitespace"
    using standard_atom_no_space by blast
  from lang_codes [OF m this] have "\<forall>c\<in>set s. \<not> is_space c"
    by (simp add: is_space_def)
  then show ?thesis by (rule trim_no_space)
qed

lemma standard_lower:
  assumes "test_full (EMAIL_PATTERNS Standard) s"
  shows "test_full (EMAIL_PATTERNS Standard) (toLowerCase s)"
proof -
  from assms have m: "map of_char s \<in> lang (EMAIL_PATTERNS Standard)"
    by (simp only: test_full_def matches_lang)
  have "\<forall>cs\<in>atoms (EMAIL_PATTERNS Standard). \<forall>c. cset_has cs c \<longrightarrow> cset_has cs (lower_code c)"
    using standard_atom_lower by blast
  from lang_map [OF m this] show ?thesis
    by (simp only: test_full_def matches_lang map_of_char_toLowerCase)
qed

lemma standard_accepts:
  assumes "test_full (EMAIL_PATTERNS Standard) s"
  shows "isValid (validateEmailAdvanced (Some s) default_options) \<longleftrightarrow>
           length s \<le> 254 \<and> length (takeWhile (\<lambda>c. c \<noteq> CHR ''@'') s) \<le> 64 \<and>
           \<not> str_includes s ''..''"
proof -
  from standard_string_split [OF assms] obtain ls ds where
    s: "s = ls @ CHR ''@'' # ds" "ls \<noteq> []" "ds \<noteq> []" "CHR ''@'' \<notin> set ls" "CHR ''@'' \<notin> set ds"
    by blast
  have t: "trim s = s" using assms by (rule standard_no_space)
  have m: "test_full (EMAIL_PATTERNS Standard) (toLowerCase s)" using assms by (rule standard_lower)
  have i: "lastIndexOf (toLowerCase s) CHR ''@'' = Some (length ls)"
    unfolding lastIndexOf_toLowerCase s(1) using s(5) by (rule lastIndexOf_split)
  have w: "takeWhile (\<lambda>c. c \<noteq> CHR ''@'') s = ls"
    unfolding s(1) using s(4) by (auto simp: takeWhile_tail)
  have n: "length (toLowerCase s) = length s" by (simp add: toLowerCase_def)
  have e: "s \<noteq> []" "toLowerCase s \<noteq> []" using s(1) by (simp_all add: toLowerCase_def)
  have ll: "length s = length ls + 1 + length ds" using s(1) by simp
  show ?thesis
    unfolding validateEmailAdvanced_def default_options_def
    using m s(2,3) e
    by (simp add: Let_def t i w n strictish_def str_includes_toLowerCase ll)
qed

text \<open>
  Claim C4 as stated fails on both sides. \<^verbatim>\<open>a..b@c.de\<close> matches the standard pattern
  and is rejected, for its consecutive dots; \<^verbatim>\<open>user@localhost\<close>, whose domain part has no
  dot, is accepted, since the standard pattern asks for no dot in the domain.
\<close>

lemma standard_samples:
  "test_full (EMAIL_PATTERNS Standard) ''a..b@c.de''"
  "test_full (EMAIL_PATTERNS Standard) ''user@localhost''"
  by (simp_all add: rx_eval label_def chars_def alnum_def)

theorem standard_level_counterexample:
  "test_full (EMAIL_PATTERNS Standard) ''a..b@c.de'' \<and>
   \<not> isValid (validateEmailAdvanced (Some ''a..b@c.de'') default_options) \<and>
   CHR ''.'' \<notin> set ''localhost'' \<and>
   isValid (validateEmailAdvanced (Some ''user@localhost'') default_options)"
  using standard_samples standard_accepts [of "''a..b@c.de''"]
    standard_accepts [of "''user@localhost''"]
  by simp

text \<open>
  Claim C4, amended. At the standard level with the default options, a string that
  matches the standard pattern is accepted exactly when it has at most 254 characters,
  at most 64 of them before the \<^verbatim>\<open>@\<close>, and no two consecutive dots; and a string without
  \<^verbatim>\<open>@\<close> is rejected, whatever the options.
\<close>

theorem standard_level:
  "(test_full (EMAIL_PATTERNS Standard) s \<longrightarrow>
      isValid (validateEmailAdvanced (Some s) default_options) =
        (length s \<le> 254 \<and> length (takeWhile (\<lambda>c. c \<noteq> CHR ''@'') s) \<le> 64 \<and>
         \<not> str_includes s ''..'')) \<and>
   (CHR ''@'' \<notin> set s \<longrightarrow> \<not> isValid (validateEmailAdvanced (Some s) options))"
  using standard_accepts [of s] no_at_rejected [of s options] by blast

theorem standard_level_witness:
  "test_full (EMAIL_PATTERNS Standard) ''user@localhost'' \<and>
   isValid (validateEmailAdvanced (Some ''user@localhost'') default_options) \<and>
   CHR ''@'' \<notin> set ''nobody'' \<and>
   \<not> isValid (validateEmailAdvanced (Some ''nobody'') default_options)"
  using standard_samples(2) standard_level [of "''user@localhost''" default_options]
    standard_level [of "''nobody''" default_options]
  by simp

end
